theory Spec2Isabelle
  imports Complex_Main "HOL-Library.Word"
begin

section \<open>The viewer of the ROBOGEN framework (src/viewer/Viewer.cpp)\<close>

text \<open>
  A shallow embedding of \<^verbatim>\<open>Viewer.cpp\<close>: the snapshot callback, the constructor body
  \<^verbatim>\<open>Viewer::init\<close>, scene composition \<^verbatim>\<open>Viewer::configureScene\<close>, the frame pacer
  \<^verbatim>\<open>Viewer::frame\<close> and \<^verbatim>\<open>Viewer::record\<close>.

  Conventions.
  \<^item> \<^verbatim>\<open>unsigned int\<close> is a 32-bit word; \<^verbatim>\<open>%\<close> on it is the unsigned remainder, and
    a remainder by zero is undefined behaviour in C++: the model returns \<open>None\<close> there.
  \<^item> \<^verbatim>\<open>double\<close> is idealised as \<open>real\<close>. The properties proved below depend on the
    comparisons and the control flow only, never on rounding.
  \<^item> A \<^verbatim>\<open>boost::posix_time::ptime\<close> is a number of microseconds; the wall clock
    readings of a call are inputs of the call.
  \<^item> The header \<^verbatim>\<open>Viewer.h\<close> is not among the sources. The macro
    \<^verbatim>\<open>MAX_TIME_BETWEEN_FRAMES\<close> it defines is a parameter of \<open>frame\<close>; the member
    \<^verbatim>\<open>recordFrequency\<close> has the type of the constructor argument stored in it; the
    counter \<^verbatim>\<open>frameCount\<close> is an unbounded natural number.
  \<^item> Output on \<^verbatim>\<open>std::cout\<close> is left out.
\<close>

subsection \<open>Data\<close>

type_synonym uint = "32 word"
type_synonym ptime = int

text \<open>\<^verbatim>\<open>class SnapImageDrawCallback\<close>: the two members \<^verbatim>\<open>_filename\<close> and
  \<^verbatim>\<open>_snapImageOnNextFrame\<close>.\<close>

record SnapImageDrawCallback =
  filename :: string
  snapImageOnNextFrame :: bool

text \<open>
  The viewer object. The first group of fields is what the code reaches through
  \<^verbatim>\<open>this->viewer\<close> (the OpenSceneGraph viewer and its camera), \<^verbatim>\<open>this->keyboardEvent\<close>
  and \<^verbatim>\<open>this->root\<close>; \<open>framesRendered\<close> counts the completed calls of
  \<^verbatim>\<open>viewer->frame()\<close> and \<open>writtenFiles\<close> lists the image files that
  \<^verbatim>\<open>osgDB::writeImageFile\<close> has written, oldest first. The second group is the
  members of \<^verbatim>\<open>class Viewer\<close> themselves.
\<close>

record 'node Viewer =
  framesRendered :: nat
  writtenFiles :: "string list"
  postDrawCallback :: "SnapImageDrawCallback option"
  sceneData :: bool
  realized :: bool
  cameraManipulator :: bool
  allowEventFocus :: bool
  paused :: bool
  rootChildren :: "'node list"
  speedFactor :: real
  tick1 :: ptime
  tick2 :: ptime
  elapsedWallTime :: real
  timeSinceLastFrame :: real
  recording :: bool
  frameCount :: nat
  recordFrequency :: uint
  recordDirectoryName :: string

text \<open>
  What one call of \<^verbatim>\<open>Viewer::frame\<close> reads from outside the object: the wall clock at
  line 213 and at line 222, whether \<^verbatim>\<open>osgDB::writeImageFile\<close> succeeds should the
  callback run armed, and the pause flag of the keyboard handler when
  \<^verbatim>\<open>viewer->frame()\<close> returns (OpenSceneGraph delivers the key events to the handlers
  inside that call, so this is the only place of \<^verbatim>\<open>Viewer::frame\<close> where the flag can
  change).
\<close>

record frame_env =
  clock2 :: ptime
  clock1 :: ptime
  writeOk :: bool
  pausedAfterDraw :: bool

subsection \<open>SnapImageDrawCallback\<close>

text \<open>\<^verbatim>\<open>SnapImageDrawCallback::operator()\<close> (lines 53-72), on the callback and the list
  of files written so far. \<open>ok\<close> is the result of \<^verbatim>\<open>osgDB::writeImageFile\<close>.\<close>

definition SnapImageDrawCallback_call ::
  "bool \<Rightarrow> SnapImageDrawCallback \<Rightarrow> string list \<Rightarrow> SnapImageDrawCallback \<times> string list" where
  "SnapImageDrawCallback_call ok cb files =
     (if \<not> snapImageOnNextFrame cb then (cb, files)
      else (cb\<lparr>snapImageOnNextFrame := False\<rparr>,
            if ok then files @ [filename cb] else files))"

text \<open>\<^verbatim>\<open>this->viewer->frame()\<close> of OpenSceneGraph, as far as the viewer's code depends
  on it: the events are handled, a frame is drawn and the camera's post-draw callback
  runs.\<close>

definition osgViewer_frame :: "frame_env \<Rightarrow> 'node Viewer \<Rightarrow> 'node Viewer" where
  "osgViewer_frame env this =
     (let this1 = this\<lparr>framesRendered := Suc (framesRendered this),
                       paused := pausedAfterDraw env\<rparr>
      in case postDrawCallback this1 of
           None \<Rightarrow> this1
         | Some cb \<Rightarrow>
             (case SnapImageDrawCallback_call (writeOk env) cb (writtenFiles this1) of
                (cb', files') \<Rightarrow>
                  this1\<lparr>postDrawCallback := Some cb', writtenFiles := files'\<rparr>))"

subsection \<open>Construction\<close>

text \<open>
  \<^verbatim>\<open>Viewer::init\<close> (lines 82-121). \<open>this\<close> is the object before the constructor body
  runs: \<open>init\<close> assigns the members the source assigns and leaves the others as they
  are. \<open>now\<close> is the wall clock at line 106. The new OpenSceneGraph viewer has drawn no
  frame and written no file, has no scene, no camera manipulator and no post-draw
  callback, and its camera accepts the event focus; the new keyboard handler starts
  with the pause flag it is given.
\<close>

definition init ::
  "ptime \<Rightarrow> 'node Viewer \<Rightarrow> bool \<Rightarrow> real \<Rightarrow> bool \<Rightarrow> uint \<Rightarrow> string \<Rightarrow> 'node Viewer" where
  "init now this startPaused speedFactor' recording' recordFrequency' recordDirectoryName' =
     (let this1 = this\<lparr>framesRendered := 0, writtenFiles := [],
                       postDrawCallback := None, sceneData := False, realized := False,
                       cameraManipulator := False, allowEventFocus := True,
                       paused := startPaused, rootChildren := [],
                       speedFactor := speedFactor', tick1 := now,
                       elapsedWallTime := 0, timeSinceLastFrame := 0,
                       recording := recording'\<rparr>
      in if recording'
         then this1\<lparr>frameCount := 0, recordFrequency := recordFrequency',
                    postDrawCallback :=
                      Some \<lparr>filename = [], snapImageOnNextFrame = False\<rparr>,
                    recordDirectoryName := recordDirectoryName'\<rparr>
         else this1)"

text \<open>The three constructors (lines 123-138).\<close>

definition Viewer1 :: "ptime \<Rightarrow> 'node Viewer \<Rightarrow> bool \<Rightarrow> 'node Viewer" where
  "Viewer1 now this startPaused = init now this startPaused 1 False 0 []"

definition Viewer2 :: "ptime \<Rightarrow> 'node Viewer \<Rightarrow> bool \<Rightarrow> real \<Rightarrow> 'node Viewer" where
  "Viewer2 now this startPaused speedFactor' = init now this startPaused speedFactor' False 0 []"

definition Viewer5 ::
  "ptime \<Rightarrow> 'node Viewer \<Rightarrow> bool \<Rightarrow> real \<Rightarrow> bool \<Rightarrow> uint \<Rightarrow> string \<Rightarrow> 'node Viewer" where
  "Viewer5 now this startPaused speedFactor' recording' recordFrequency' recordDirectoryName' =
     init now this startPaused speedFactor' recording' recordFrequency' recordDirectoryName'"

subsection \<open>Scene composition\<close>

text \<open>
  The render models live in files that are not among the sources; what
  \<^verbatim>\<open>configureScene\<close> calls of them is a parameter:
  \<^verbatim>\<open>RobogenUtils::createRenderModel\<close> (\<open>None\<close> is the null pointer),
  \<^verbatim>\<open>RenderModel::initRenderModel\<close>, \<^verbatim>\<open>RenderModel::getRootNode\<close>, and the root nodes of
  a new \<^verbatim>\<open>TerrainRender\<close> and a new \<^verbatim>\<open>BoxObstacleRender\<close>.
\<close>

record ('model, 'rm, 'terrain, 'obstacle, 'node) RenderModels =
  createRenderModel :: "'model \<Rightarrow> 'rm option"
  initRenderModel :: "'rm \<Rightarrow> bool"
  getRootNode :: "'rm \<Rightarrow> 'node"
  TerrainRender :: "'terrain \<Rightarrow> 'node"
  BoxObstacleRender :: "'obstacle \<Rightarrow> 'node"

record ('terrain, 'obstacle) Scenario =
  getTerrain :: 'terrain
  getObstacles :: "'obstacle list"

text \<open>The loop of lines 149-169, from index \<open>i\<close> on, with the local vector
  \<open>renderModels\<close>. The result is the flag "no body part failed" and the viewer.\<close>

function bodyPartsLoop ::
  "('model, 'rm, 'terrain, 'obstacle, 'node) RenderModels \<Rightarrow> 'model list \<Rightarrow> nat \<Rightarrow>
   'rm list \<Rightarrow> 'node Viewer \<Rightarrow> bool \<times> 'node Viewer" where
  "bodyPartsLoop R bodyParts i renderModels this =
     (if i < length bodyParts then
        (case createRenderModel R (bodyParts ! i) of
           None \<Rightarrow> (False, this)
         | Some renderModel \<Rightarrow>
             if \<not> initRenderModel R renderModel then (False, this)
             else
               (let renderModels' = renderModels @ [renderModel];
                    this' = this\<lparr>rootChildren :=
                              rootChildren this @ [getRootNode R (renderModels' ! i)]\<rparr>
                in bodyPartsLoop R bodyParts (Suc i) renderModels' this'))
      else (True, this))"
  by pat_completeness auto
termination
  by (relation "measure (\<lambda>(R, bodyParts, i, renderModels, this). length bodyParts - i)") auto

text \<open>\<^verbatim>\<open>Viewer::configureScene\<close> (lines 144-206). Of the set-up of the OpenSceneGraph
  viewer (lines 189-199) the scene data, the realisation and the camera manipulator
  are kept.\<close>

definition configureScene ::
  "('model, 'rm, 'terrain, 'obstacle, 'node) RenderModels \<Rightarrow> 'model list \<Rightarrow>
   ('terrain, 'obstacle) Scenario \<Rightarrow> 'node Viewer \<Rightarrow> bool \<times> 'node Viewer" where
  "configureScene R bodyParts scenario this =
     (case bodyPartsLoop R bodyParts 0 [] this of
        (False, this1) \<Rightarrow> (False, this1)
      | (True, this1) \<Rightarrow>
          (let this2 = this1\<lparr>rootChildren :=
                         rootChildren this1 @ [TerrainRender R (getTerrain scenario)]\<rparr>;
               this3 = this2\<lparr>rootChildren :=
                         rootChildren this2 @ map (BoxObstacleRender R) (getObstacles scenario)\<rparr>;
               this4 = this3\<lparr>sceneData := True, realized := True\<rparr>;
               this5 = (if \<not> cameraManipulator this4 \<and> allowEventFocus this4
                        then this4\<lparr>cameraManipulator := True\<rparr> else this4)
           in (True, this5)))"

subsection \<open>The frame pacer\<close>

text \<open>\<^verbatim>\<open>Viewer::isPaused\<close> (lines 277-279).\<close>

definition isPaused :: "'node Viewer \<Rightarrow> bool" where
  "isPaused this = paused this"

text \<open>\<^verbatim>\<open>time_duration::total_milliseconds\<close> of a duration in microseconds: the
  integer quotient of C++, which truncates towards zero.\<close>

definition total_milliseconds :: "int \<Rightarrow> int" where
  "total_milliseconds d = (if 0 \<le> d then d div 1000 else - ((- d) div 1000))"

text \<open>Lines 213-222 of \<^verbatim>\<open>Viewer::frame\<close>: the two readings of the clock and the two
  accumulators.\<close>

definition clockUpdate :: "frame_env \<Rightarrow> 'node Viewer \<Rightarrow> 'node Viewer" where
  "clockUpdate env this =
     (let this1 = this\<lparr>tick2 := clock2 env\<rparr>;
          diff = tick2 this1 - tick1 this1;
          this2 = (if \<not> isPaused this1 then
                     (let frameTime = real_of_int (total_milliseconds diff) / 1000
                      in this1\<lparr>elapsedWallTime := elapsedWallTime this1 + frameTime,
                               timeSinceLastFrame := timeSinceLastFrame this1 + frameTime\<rparr>)
                   else this1)
      in this2\<lparr>tick1 := clock1 env\<rparr>)"

text \<open>The expression \<^verbatim>\<open>this->recording && (numTimeSteps % recordFrequency == 0)\<close> of
  lines 234 and 251. \<^verbatim>\<open>&&\<close> evaluates its right operand only when the left one is
  true; the remainder by zero has no value.\<close>

definition captureDue :: "'node Viewer \<Rightarrow> uint \<Rightarrow> bool option" where
  "captureDue this numTimeSteps =
     (if \<not> recording this then Some False
      else if recordFrequency this = 0 then None
      else Some (numTimeSteps mod recordFrequency this = 0))"

text \<open>The condition of lines 233-236, its operands evaluated from left to right as
  \<^verbatim>\<open>||\<close> does.\<close>

definition shouldDraw :: "real \<Rightarrow> 'node Viewer \<Rightarrow> real \<Rightarrow> uint \<Rightarrow> bool option" where
  "shouldDraw MAX_TIME_BETWEEN_FRAMES this simulatedTime numTimeSteps =
     (if isPaused this then Some True
      else (case captureDue this numTimeSteps of
              None \<Rightarrow> None
            | Some True \<Rightarrow> Some True
            | Some False \<Rightarrow>
                Some (simulatedTime > elapsedWallTime this * speedFactor this \<or>
                      timeSinceLastFrame this \<ge> MAX_TIME_BETWEEN_FRAMES)))"

text \<open>What \<^verbatim>\<open>boost::format("%|04|")\<close> prints for an unsigned number: its decimal
  digits, filled with zeros on the left up to four characters.\<close>

definition digit :: "nat \<Rightarrow> char" where
  "digit d = ''0123456789'' ! d"

fun decimal :: "nat \<Rightarrow> string" where
  "decimal n = (if n < 10 then [digit n] else decimal (n div 10) @ [digit (n mod 10)])"

declare decimal.simps [simp del]

definition format04 :: "nat \<Rightarrow> string" where
  "format04 n = replicate (4 - length (decimal n)) (CHR ''0'') @ decimal n"

text \<open>\<^verbatim>\<open>Viewer::record\<close> (lines 260-275). The dynamic cast yields the null pointer when
  the camera has no post-draw callback of the class.\<close>

definition Viewer_record :: "'node Viewer \<Rightarrow> 'node Viewer" where
  "Viewer_record this =
     (case postDrawCallback this of
        None \<Rightarrow> this
      | Some snapImageDrawCallback \<Rightarrow>
          this\<lparr>postDrawCallback :=
                 Some (snapImageDrawCallback
                        \<lparr>filename := recordDirectoryName this @ ''/'' @
                                      format04 (frameCount this) @ ''.jpg'',
                         snapImageOnNextFrame := True\<rparr>),
               frameCount := frameCount this + 1\<rparr>)"

text \<open>Lines 251-255 of \<^verbatim>\<open>Viewer::frame\<close>.\<close>

definition recordAndReturn :: "'node Viewer \<Rightarrow> uint \<Rightarrow> (bool \<times> 'node Viewer) option" where
  "recordAndReturn this numTimeSteps =
     (case captureDue this numTimeSteps of
        None \<Rightarrow> None
      | Some True \<Rightarrow> Some (True, Viewer_record this)
      | Some False \<Rightarrow> Some (True, this))"

text \<open>\<^verbatim>\<open>Viewer::frame\<close> (lines 212-256): the value returned and the viewer afterwards,
  or \<open>None\<close> when the call evaluates the remainder by zero.\<close>

definition frame ::
  "real \<Rightarrow> frame_env \<Rightarrow> 'node Viewer \<Rightarrow> real \<Rightarrow> uint \<Rightarrow> (bool \<times> 'node Viewer) option" where
  "frame MAX_TIME_BETWEEN_FRAMES env this0 simulatedTime numTimeSteps =
     (let this1 = clockUpdate env this0
      in case shouldDraw MAX_TIME_BETWEEN_FRAMES this1 simulatedTime numTimeSteps of
           None \<Rightarrow> None
         | Some False \<Rightarrow> recordAndReturn this1 numTimeSteps
         | Some True \<Rightarrow>
             (let this2 = (osgViewer_frame env this1)\<lparr>timeSinceLastFrame := 0\<rparr>
              in if isPaused this2 \<or>
                    simulatedTime > elapsedWallTime this2 * speedFactor this2
                 then Some (False, this2)
                 else recordAndReturn this2 numTimeSteps))"

subsection \<open>The calling loop\<close>

text \<open>The simulation loop calls \<open>frame\<close> once after the other on the same viewer.
  A call is its environment, the simulated time and the step counter; \<open>run\<close> makes
  the calls of a list in order and collects the values returned.\<close>

type_synonym frame_call = "frame_env \<times> real \<times> uint"

fun run ::
  "real \<Rightarrow> 'node Viewer \<Rightarrow> frame_call list \<Rightarrow> (bool list \<times> 'node Viewer) option" where
  "run M this [] = Some ([], this)"
| "run M this ((env, simulatedTime, numTimeSteps) # calls) =
     (case frame M env this simulatedTime numTimeSteps of
        None \<Rightarrow> None
      | Some (ret, this') \<Rightarrow>
          (case run M this' calls of
             None \<Rightarrow> None
           | Some (rets, this'') \<Rightarrow> Some (ret # rets, this'')))"

subsection \<open>Notions of the statements\<close>

text \<open>The node that the loop of \<open>configureScene\<close> attaches for a body part, if the
  part's render model can be created and initialised.\<close>

definition bodyPartNode ::
  "('model, 'rm, 'terrain, 'obstacle, 'node) RenderModels \<Rightarrow> 'model \<Rightarrow> 'node option" where
  "bodyPartNode R m =
     (case createRenderModel R m of
        None \<Rightarrow> None
      | Some rm \<Rightarrow> if initRenderModel R rm then Some (getRootNode R rm) else None)"

text \<open>The file name of the capture with index \<open>i\<close> in directory \<open>dir\<close>.\<close>

definition captureName :: "string \<Rightarrow> nat \<Rightarrow> string" where
  "captureName dir i = dir @ ''/'' @ format04 i @ ''.jpg''"

text \<open>The file that the callback will write at the next drawn frame, if it is armed.\<close>

definition pendingCapture :: "'node Viewer \<Rightarrow> string list" where
  "pendingCapture this =
     (case postDrawCallback this of
        None \<Rightarrow> []
      | Some cb \<Rightarrow> if snapImageOnNextFrame cb then [filename cb] else [])"

text \<open>A call that returned \<open>ret\<close> dispatched a capture at record frequency \<open>k\<close>.\<close>

definition dispatched :: "uint \<Rightarrow> frame_call \<times> bool \<Rightarrow> bool" where
  "dispatched k cr = (case cr of ((env, simulatedTime, numTimeSteps), ret) \<Rightarrow>
     ret \<and> numTimeSteps mod k = 0)"

text \<open>The state of a recording viewer between two calls of \<open>frame\<close>: the files
  written, followed by the file of the armed capture if there is one, are the captures
  with the indices below the frame count, in order.\<close>

definition captureInv :: "uint \<Rightarrow> string \<Rightarrow> 'node Viewer \<Rightarrow> bool" where
  "captureInv k dir this \<longleftrightarrow>
     recording this \<and> recordFrequency this = k \<and> k \<noteq> 0 \<and>
     recordDirectoryName this = dir \<and> postDrawCallback this \<noteq> None \<and>
     writtenFiles this @ pendingCapture this = map (captureName dir) [0..<frameCount this]"

text \<open>Reading a string of decimal digits as a number.\<close>

definition digitValue :: "char \<Rightarrow> nat" where
  "digitValue c = of_char c - 48"

definition readDecimal :: "string \<Rightarrow> nat" where
  "readDecimal s = foldl (\<lambda>a c. 10 * a + digitValue c) 0 s"

subsection \<open>Concrete viewers and calls\<close>

text \<open>An object before its constructor has run: the members hold whatever the memory
  held, the string member is empty.\<close>

definition rawViewer :: "nat Viewer" where
  "rawViewer =
     \<lparr>framesRendered = 7, writtenFiles = [], postDrawCallback = None, sceneData = True,
      realized = False, cameraManipulator = False, allowEventFocus = False,
      paused = True, rootChildren = [9], speedFactor = 3, tick1 = 5, tick2 = 6,
      elapsedWallTime = 8, timeSinceLastFrame = 4, recording = True, frameCount = 11,
      recordFrequency = 13, recordDirectoryName = []\<rparr>"

text \<open>A recording viewer (a capture every second step, real-time speed), constructed
  running and constructed paused, and a viewer that does not record.\<close>

definition recordingViewer :: "nat Viewer" where
  "recordingViewer = Viewer5 0 rawViewer False 1 True 2 ''out''"

definition pausedViewer :: "nat Viewer" where
  "pausedViewer = Viewer5 0 rawViewer True 1 True 2 ''out''"

definition plainViewer :: "nat Viewer" where
  "plainViewer = Viewer1 0 rawViewer False"

text \<open>A viewer constructed with a negative speed factor and record frequency zero.\<close>

definition invalidViewer :: "nat Viewer" where
  "invalidViewer = Viewer5 0 rawViewer True (- 1) True 0 ''out''"

text \<open>Environments of a call: 10 ms and 2 s after the construction at time 0, with the
  write succeeding or failing and the pause flag found set or clear after the draw.\<close>

definition envSoon :: frame_env where
  "envSoon = \<lparr>clock2 = 10000, clock1 = 10001, writeOk = True, pausedAfterDraw = False\<rparr>"

definition envLate :: frame_env where
  "envLate = \<lparr>clock2 = 2000000, clock1 = 2000001, writeOk = True, pausedAfterDraw = False\<rparr>"

definition envLateWriteFails :: frame_env where
  "envLateWriteFails =
     \<lparr>clock2 = 2000000, clock1 = 2000001, writeOk = False, pausedAfterDraw = False\<rparr>"

text \<open>A call 999 microseconds after the reading 10001 that the first call leaves in
  \<open>tick1\<close>.\<close>

definition envSubMillisecond :: frame_env where
  "envSubMillisecond =
     \<lparr>clock2 = 11000, clock1 = 11001, writeOk = True, pausedAfterDraw = False\<rparr>"

definition envPaused :: frame_env where
  "envPaused = \<lparr>clock2 = 10000, clock1 = 10001, writeOk = True, pausedAfterDraw = True\<rparr>"

text \<open>The recording viewer after a first call of \<open>frame\<close>, 10 ms after its
  construction, at step 0.\<close>

definition afterFirstCall :: "nat Viewer" where
  "afterFirstCall = snd (the (frame (1 / 20) envSoon recordingViewer 0 0))"

text \<open>Four calls of the simulation loop at the steps 0 to 3, at 10 ms, 2 s, 4 s and
  7 s, with simulated time 0 and every write succeeding.\<close>

definition fourCalls :: "frame_call list" where
  "fourCalls =
     [(envSoon, 0, 0), (envLate, 0, 1), (envLate\<lparr>clock2 := 4000000\<rparr>, 0, 2),
      (envLate\<lparr>clock2 := 7000000\<rparr>, 0, 3)]"

definition afterFourCalls :: "nat Viewer" where
  "afterFourCalls = snd (the (run (1 / 20) recordingViewer fourCalls))"

text \<open>Render models over numbers: every body part has a render model, and the render
  model of body part 2 fails to initialise.\<close>

definition thirdFails :: "(nat, nat, nat, nat, nat) RenderModels" where
  "thirdFails =
     \<lparr>createRenderModel = (\<lambda>m. Some (10 + m)), initRenderModel = (\<lambda>rm. rm \<noteq> 12),
      getRootNode = (\<lambda>rm. 100 + rm), TerrainRender = (\<lambda>t. 1000 + t),
      BoxObstacleRender = (\<lambda>ob. 2000 + ob)\<rparr>"

definition flatScenario :: "(nat, nat) Scenario" where
  "flatScenario = \<lparr>getTerrain = 0, getObstacles = [0, 1]\<rparr>"

section \<open>Properties\<close>

subsection \<open>Unfolding and projection lemmas\<close>

lemmas frame_unfold = frame_def shouldDraw_def captureDue_def recordAndReturn_def isPaused_def

lemmas ctor_defs = Viewer1_def Viewer2_def Viewer5_def init_def rawViewer_def

lemmas frame_eval = frame_unfold clockUpdate_def osgViewer_frame_def Viewer_record_def
  SnapImageDrawCallback_call_def total_milliseconds_def Let_def

lemma clockUpdate_fields:
  "paused (clockUpdate env s) = paused s"
  "recording (clockUpdate env s) = recording s"
  "recordFrequency (clockUpdate env s) = recordFrequency s"
  "speedFactor (clockUpdate env s) = speedFactor s"
  "framesRendered (clockUpdate env s) = framesRendered s"
  "frameCount (clockUpdate env s) = frameCount s"
  "postDrawCallback (clockUpdate env s) = postDrawCallback s"
  "writtenFiles (clockUpdate env s) = writtenFiles s"
  "recordDirectoryName (clockUpdate env s) = recordDirectoryName s"
  "rootChildren (clockUpdate env s) = rootChildren s"
  by (simp_all add: clockUpdate_def Let_def isPaused_def)

lemma clockUpdate_paused:
  "paused s \<Longrightarrow> elapsedWallTime (clockUpdate env s) = elapsedWallTime s"
  "paused s \<Longrightarrow> timeSinceLastFrame (clockUpdate env s) = timeSinceLastFrame s"
  by (simp_all add: clockUpdate_def Let_def isPaused_def)

lemma osgViewer_frame_fields:
  "paused (osgViewer_frame env s) = pausedAfterDraw env"
  "recording (osgViewer_frame env s) = recording s"
  "recordFrequency (osgViewer_frame env s) = recordFrequency s"
  "speedFactor (osgViewer_frame env s) = speedFactor s"
  "elapsedWallTime (osgViewer_frame env s) = elapsedWallTime s"
  "timeSinceLastFrame (osgViewer_frame env s) = timeSinceLastFrame s"
  "framesRendered (osgViewer_frame env s) = Suc (framesRendered s)"
  "frameCount (osgViewer_frame env s) = frameCount s"
  "recordDirectoryName (osgViewer_frame env s) = recordDirectoryName s"
  "rootChildren (osgViewer_frame env s) = rootChildren s"
  by (simp_all add: osgViewer_frame_def Let_def split: option.splits prod.splits)

lemma Viewer_record_fields:
  "paused (Viewer_record s) = paused s"
  "recording (Viewer_record s) = recording s"
  "recordFrequency (Viewer_record s) = recordFrequency s"
  "speedFactor (Viewer_record s) = speedFactor s"
  "elapsedWallTime (Viewer_record s) = elapsedWallTime s"
  "timeSinceLastFrame (Viewer_record s) = timeSinceLastFrame s"
  "framesRendered (Viewer_record s) = framesRendered s"
  "writtenFiles (Viewer_record s) = writtenFiles s"
  "recordDirectoryName (Viewer_record s) = recordDirectoryName s"
  by (simp_all add: Viewer_record_def split: option.splits)

lemmas viewer_fields = clockUpdate_fields osgViewer_frame_fields Viewer_record_fields

lemma zeros_numeral: "replicate (numeral n) c = c # replicate (numeral n - 1) c"
  by (simp add: numeral_eq_Suc)

lemmas format04_eval = format04_def decimal.simps digit_def zeros_numeral

lemma frame_returns:
  assumes "recording this \<longrightarrow> recordFrequency this \<noteq> 0"
  shows "\<exists>ret this'. frame M env this simulatedTime numTimeSteps = Some (ret, this')"
  using assms
  by (auto simp add: frame_unfold viewer_fields Let_def split: option.splits bool.splits)

subsection \<open>The draw decision\<close>

text \<open>
  Claim C2. On every call of \<open>frame\<close> a frame is rendered if and only if the viewer is
  paused, or it records and the step counter is a multiple of the record frequency, or
  the simulated time is ahead of the elapsed wall time scaled by the speed factor, or
  the time since the last frame has reached the bound. The wall time and the time since
  the last frame are those after the clock update of the call. The call returns when
  the record frequency of a recording viewer is not zero.
\<close>

theorem draw_decision:
  assumes "recording this \<longrightarrow> recordFrequency this \<noteq> 0"
  shows "\<exists>ret this'. frame M env this simulatedTime numTimeSteps = Some (ret, this')
    \<and> framesRendered this' =
        (if isPaused this
            \<or> (recording this \<and> numTimeSteps mod recordFrequency this = 0)
            \<or> simulatedTime > elapsedWallTime (clockUpdate env this) * speedFactor this
            \<or> timeSinceLastFrame (clockUpdate env this) \<ge> M
         then Suc (framesRendered this) else framesRendered this)"
  using assms
  by (auto simp add: frame_unfold viewer_fields Let_def split: option.splits bool.splits)

theorem draw_decision_witness:
  "map_option (framesRendered \<circ> snd) (frame (1/20) envSoon recordingViewer 0 4) = Some 1
   \<and> map_option (framesRendered \<circ> snd) (frame (1/20) envSoon recordingViewer 0 3) = Some 0"
proof -
  have pre: "recording recordingViewer \<longrightarrow> recordFrequency recordingViewer \<noteq> 0"
    by (simp add: ctor_defs recordingViewer_def envSoon_def)
  have a: "framesRendered recordingViewer = 0" "isPaused recordingViewer = False"
    "recording recordingViewer" "recordFrequency recordingViewer = 2"
    "speedFactor recordingViewer = 1"
    "elapsedWallTime (clockUpdate envSoon recordingViewer) = 1/100"
    "timeSinceLastFrame (clockUpdate envSoon recordingViewer) = 1/100"
    by (simp_all add: ctor_defs recordingViewer_def envSoon_def isPaused_def clockUpdate_def
        total_milliseconds_def Let_def)
  from draw_decision [OF pre, of "1/20" envSoon 0 4] draw_decision [OF pre, of "1/20" envSoon 0 3]
  show ?thesis by (auto simp add: a)
qed

text \<open>
  Claim C3. A call of \<open>frame\<close> during which the viewer is paused renders a frame and
  returns false, whatever the recording configuration, the simulated time and the
  clock are. The pause flag is read before the draw and again after it; both readings
  are assumed set.
\<close>

theorem pause_forces_draw:
  assumes "isPaused this" and "pausedAfterDraw env"
  shows "\<exists>this'. frame M env this simulatedTime numTimeSteps = Some (False, this')
           \<and> framesRendered this' = Suc (framesRendered this)
           \<and> timeSinceLastFrame this' = 0"
  using assms
  by (simp add: frame_def shouldDraw_def isPaused_def viewer_fields Let_def)

theorem pause_forces_draw_witness:
  "map_option fst (frame (1/20) envPaused pausedViewer 5 3) = Some False
   \<and> map_option (framesRendered \<circ> snd) (frame (1/20) envPaused pausedViewer 5 3) = Some 1"
proof -
  have "isPaused pausedViewer" "pausedAfterDraw envPaused" "framesRendered pausedViewer = 0"
    by (simp_all add: ctor_defs pausedViewer_def envPaused_def isPaused_def)
  from pause_forces_draw [OF this(1,2), of "1/20" 5 3] this(3)
  show ?thesis by auto
qed

text \<open>
  Claim C9. A call of \<open>frame\<close> returns false only if it rendered a frame and reset the
  time since the last frame to zero; a call that renders no frame returns true. Every
  call returns when the record frequency of a recording viewer is not zero.
\<close>

theorem no_advance_only_after_draw:
  "(\<forall>ret this'. frame M env this simulatedTime numTimeSteps = Some (ret, this') \<longrightarrow>
      (\<not> ret \<longrightarrow> framesRendered this' = Suc (framesRendered this)
                  \<and> timeSinceLastFrame this' = 0)
      \<and> (framesRendered this' = framesRendered this \<longrightarrow> ret))
   \<and> ((recording this \<longrightarrow> recordFrequency this \<noteq> 0) \<longrightarrow>
        (\<exists>ret this'. frame M env this simulatedTime numTimeSteps = Some (ret, this')))"
  by (auto simp add: frame_unfold viewer_fields Let_def split: option.splits bool.splits
      if_splits)

theorem no_advance_only_after_draw_witness:
  "map_option fst (frame (1/20) envSoon recordingViewer 0 3) = Some True
   \<and> map_option (framesRendered \<circ> snd) (frame (1/20) envSoon recordingViewer 0 3) = Some 0
   \<and> map_option fst (frame (1/20) envSoon recordingViewer 5 3) = Some False
   \<and> map_option (framesRendered \<circ> snd) (frame (1/20) envSoon recordingViewer 5 3) = Some 1
   \<and> map_option (timeSinceLastFrame \<circ> snd) (frame (1/20) envSoon recordingViewer 5 3) = Some 0"
proof -
  have pre: "recording recordingViewer \<longrightarrow> recordFrequency recordingViewer \<noteq> 0"
    and fr: "framesRendered recordingViewer = 0"
    by (simp_all add: ctor_defs recordingViewer_def envSoon_def)
  have e1: "map_option (framesRendered \<circ> snd) (frame (1/20) envSoon recordingViewer 0 3) = Some 0"
    by (simp add: frame_eval ctor_defs recordingViewer_def envSoon_def)
  have e2: "map_option fst (frame (1/20) envSoon recordingViewer 5 3) = Some False"
    by (simp add: frame_eval ctor_defs recordingViewer_def envSoon_def)
  from no_advance_only_after_draw [of "1/20" envSoon recordingViewer 0 3] pre e1 fr
  have 1: "map_option fst (frame (1/20) envSoon recordingViewer 0 3) = Some True"
    by auto
  from no_advance_only_after_draw [of "1/20" envSoon recordingViewer 5 3] pre e2 fr
  have 2: "map_option (framesRendered \<circ> snd) (frame (1/20) envSoon recordingViewer 5 3) = Some 1
    \<and> map_option (timeSinceLastFrame \<circ> snd) (frame (1/20) envSoon recordingViewer 5 3) = Some 0"
    by auto
  from 1 2 e1 e2 show ?thesis by blast
qed

text \<open>
  Claim C10. The cadence test evaluates the remainder only when the viewer records.
  \<open>frame\<close> returns on the viewers of the two constructors that do not record. In
  general, a viewer that does not record never reads \<open>recordFrequency\<close>: \<open>frame\<close> returns, and
  it returns the same with any other value in that member. A recording viewer with a
  non-zero record frequency always returns. A recording viewer with record frequency
  zero reaches the remainder by zero in every call that is not paused at entry, and in
  a call paused at entry when the draw leaves it unpaused and not throttled.
\<close>

theorem frame_total_iff:
  "frame M env (Viewer1 now this0 startPaused) simulatedTime numTimeSteps \<noteq> None
   \<and> frame M env (Viewer2 now this0 startPaused sf) simulatedTime numTimeSteps \<noteq> None
   \<and> (\<not> recording this \<longrightarrow>
      (\<exists>ret this'. frame M env this simulatedTime numTimeSteps = Some (ret, this')
         \<and> frame M env (this\<lparr>recordFrequency := f\<rparr>) simulatedTime numTimeSteps
             = Some (ret, this'\<lparr>recordFrequency := f\<rparr>)))
   \<and> (recording this \<and> recordFrequency this \<noteq> 0 \<longrightarrow>
        frame M env this simulatedTime numTimeSteps \<noteq> None)
   \<and> (recording this \<and> recordFrequency this = 0 \<longrightarrow>
        (frame M env this simulatedTime numTimeSteps = None \<longleftrightarrow>
           \<not> isPaused this
           \<or> (\<not> pausedAfterDraw env
               \<and> \<not> simulatedTime > elapsedWallTime this * speedFactor this)))"
proof (intro conjI impI)
  have "\<not> recording (Viewer1 now this0 startPaused)"
    by (simp add: Viewer1_def init_def)
  then show "frame M env (Viewer1 now this0 startPaused) simulatedTime numTimeSteps \<noteq> None"
    using frame_returns [of "Viewer1 now this0 startPaused" M env simulatedTime numTimeSteps]
    by auto
next
  have "\<not> recording (Viewer2 now this0 startPaused sf)"
    by (simp add: Viewer2_def init_def)
  then show "frame M env (Viewer2 now this0 startPaused sf) simulatedTime numTimeSteps \<noteq> None"
    using frame_returns [of "Viewer2 now this0 startPaused sf" M env simulatedTime numTimeSteps]
    by auto
next
  assume nr: "\<not> recording this"
  have c: "clockUpdate env (this\<lparr>recordFrequency := f\<rparr>) = (clockUpdate env this)\<lparr>recordFrequency := f\<rparr>"
    by (simp add: clockUpdate_def isPaused_def Let_def)
  have d: "\<And>s. osgViewer_frame env (s\<lparr>recordFrequency := f\<rparr>) = (osgViewer_frame env s)\<lparr>recordFrequency := f\<rparr>"
    by (simp add: osgViewer_frame_def Let_def split: option.splits prod.splits)
  from nr show "\<exists>ret this'. frame M env this simulatedTime numTimeSteps = Some (ret, this')
         \<and> frame M env (this\<lparr>recordFrequency := f\<rparr>) simulatedTime numTimeSteps
             = Some (ret, this'\<lparr>recordFrequency := f\<rparr>)"
    by (auto simp add: frame_unfold c d viewer_fields Let_def split: bool.splits)
next
  assume "recording this \<and> recordFrequency this \<noteq> 0"
  then show "frame M env this simulatedTime numTimeSteps \<noteq> None"
    by (auto simp add: frame_unfold viewer_fields Let_def split: option.splits bool.splits)
next
  assume "recording this \<and> recordFrequency this = 0"
  then show "frame M env this simulatedTime numTimeSteps = None \<longleftrightarrow>
           \<not> isPaused this
           \<or> (\<not> pausedAfterDraw env
               \<and> \<not> simulatedTime > elapsedWallTime this * speedFactor this)"
    by (auto simp add: frame_unfold viewer_fields clockUpdate_paused Let_def split:
        option.splits bool.splits)
qed

theorem frame_total_iff_witness:
  "frame (1/20) envSoon plainViewer 0 0 \<noteq> None
   \<and> frame (1/20) envSoon recordingViewer 0 0 \<noteq> None
   \<and> frame (1/20) envSoon (recordingViewer\<lparr>recordFrequency := 0\<rparr>) 0 0 = None
   \<and> frame (1/20) envPaused invalidViewer 0 0 \<noteq> None"
proof -
  have a: "\<not> recording plainViewer" "recording recordingViewer \<and> recordFrequency recordingViewer \<noteq> 0"
    "recording (recordingViewer\<lparr>recordFrequency := 0\<rparr>) \<and> recordFrequency (recordingViewer\<lparr>recordFrequency := 0\<rparr>) = 0"
    "\<not> isPaused (recordingViewer\<lparr>recordFrequency := 0\<rparr>)"
    "recording invalidViewer \<and> recordFrequency invalidViewer = 0"
    "isPaused invalidViewer" "pausedAfterDraw envPaused"
    by (simp_all add: ctor_defs recordingViewer_def plainViewer_def invalidViewer_def
        envSoon_def envPaused_def isPaused_def)
  note th = frame_total_iff [where M = "1/20" and simulatedTime = 0 and numTimeSteps = 0
      and f = 0 and now = 0 and ?this0.0 = rawViewer and startPaused = False and sf = 1]
  from th [where this = plainViewer and env = envSoon] a(1)
  have 1: "frame (1/20) envSoon plainViewer 0 0 \<noteq> None" by auto
  from th [where this = recordingViewer and env = envSoon] a(2)
  have 2: "frame (1/20) envSoon recordingViewer 0 0 \<noteq> None" by blast
  from th [where this = "recordingViewer\<lparr>recordFrequency := 0\<rparr>" and env = envSoon] a(3,4)
  have 3: "frame (1/20) envSoon (recordingViewer\<lparr>recordFrequency := 0\<rparr>) 0 0 = None" by blast
  from th [where this = invalidViewer and env = envPaused] a(5,6,7)
  have 4: "frame (1/20) envPaused invalidViewer 0 0 \<noteq> None" by blast
  from 1 2 3 4 show ?thesis by blast
qed


subsection \<open>Scene composition\<close>

declare bodyPartsLoop.simps [simp del]

lemma bodyPartsLoop_takeWhile:
  assumes "length renderModels = i"
  shows "bodyPartsLoop R bodyParts i renderModels this =
     (\<forall>m \<in> set (drop i bodyParts). bodyPartNode R m \<noteq> None,
      this\<lparr>rootChildren := rootChildren this @
         map (the \<circ> bodyPartNode R)
           (takeWhile (\<lambda>m. bodyPartNode R m \<noteq> None) (drop i bodyParts))\<rparr>)"
  using assms
proof (induction R bodyParts i renderModels this rule: bodyPartsLoop.induct)
  case (1 R bodyParts i renderModels this)
  show ?case
  proof (cases "i < length bodyParts")
    case False
    then show ?thesis by (simp add: bodyPartsLoop.simps [of R bodyParts i])
  next
    case True
    then have d: "drop i bodyParts = bodyParts ! i # drop (Suc i) bodyParts"
      by (simp add: Cons_nth_drop_Suc)
    show ?thesis
    proof (cases "createRenderModel R (bodyParts ! i)")
      case None
      with True d show ?thesis
        by (simp add: bodyPartsLoop.simps [of R bodyParts i] bodyPartNode_def)
    next
      case (Some rm)
      show ?thesis
      proof (cases "initRenderModel R rm")
        case False
        with True d Some show ?thesis
          by (simp add: bodyPartsLoop.simps [of R bodyParts i] bodyPartNode_def)
      next
        case init: True
        have n: "(renderModels @ [rm]) ! i = rm"
          using "1.prems" by (simp add: nth_append)
        have len: "length (renderModels @ [rm]) = Suc i"
          using "1.prems" by simp
        note IH = "1.IH" [OF True Some _ refl refl len, simplified]
        from init have IH': "bodyPartsLoop R bodyParts (Suc i) (renderModels @ [rm])
            (this\<lparr>rootChildren := rootChildren this @ [getRootNode R rm]\<rparr>) =
           (\<forall>m \<in> set (drop (Suc i) bodyParts). bodyPartNode R m \<noteq> None,
            this\<lparr>rootChildren := rootChildren this @ [getRootNode R rm] @
               map (the \<circ> bodyPartNode R)
                 (takeWhile (\<lambda>m. bodyPartNode R m \<noteq> None) (drop (Suc i) bodyParts))\<rparr>)"
          using IH n by simp
        have b: "bodyPartNode R (bodyParts ! i) = Some (getRootNode R rm)"
          using Some init by (simp add: bodyPartNode_def)
        show ?thesis
          using True Some init n IH' b
          by (simp add: bodyPartsLoop.simps [of R bodyParts i] d Let_def)
      qed
    qed
  qed
qed

text \<open>
  Claim C1, as the code has it. When the render model of some body part cannot be
  created or initialised, \<open>configureScene\<close> returns false, and the nodes of the body
  parts before the first failing one stay attached to the root, in their order.
  Nothing else of the viewer changes: neither the failing part nor a later one, the
  terrain or an obstacle is attached, and the scene is not given to the viewer.
\<close>

theorem configureScene_failure:
  assumes "k < length bodyParts"
    and "\<forall>j<k. bodyPartNode R (bodyParts ! j) \<noteq> None"
    and "bodyPartNode R (bodyParts ! k) = None"
  shows "configureScene R bodyParts scenario this =
     (False, this\<lparr>rootChildren := rootChildren this @
                 map (the \<circ> bodyPartNode R) (take k bodyParts)\<rparr>)"
proof -
  have tw: "takeWhile (\<lambda>m. bodyPartNode R m \<noteq> None) bodyParts = take k bodyParts"
    using assms by (intro takeWhile_eq_take_P_nth) auto
  have "bodyParts ! k \<in> set bodyParts"
    using assms(1) by simp
  with assms(3) have ex: "\<not> (\<forall>m \<in> set (drop 0 bodyParts). bodyPartNode R m \<noteq> None)"
    by auto
  have "bodyPartsLoop R bodyParts 0 [] this =
     (False, this\<lparr>rootChildren := rootChildren this @
                 map (the \<circ> bodyPartNode R) (take k bodyParts)\<rparr>)"
    unfolding bodyPartsLoop_takeWhile [of "[]" 0 R bodyParts this, OF list.size(3)]
    using ex tw by simp
  then show ?thesis
    by (simp add: configureScene_def)
qed

theorem configureScene_failure_witness:
  "configureScene thirdFails [0, 1, 2] flatScenario plainViewer =
     (False, plainViewer\<lparr>rootChildren := [110, 111]\<rparr>)"
proof -
  have a: "(2::nat) < length [0::nat, 1, 2]"
    "\<forall>j<2. bodyPartNode thirdFails ([0, 1, 2] ! j) \<noteq> None"
    "bodyPartNode thirdFails ([0, 1, 2] ! 2) = None"
    by (simp_all add: bodyPartNode_def thirdFails_def less_Suc_eq numeral_2_eq_2)
  have r: "rootChildren plainViewer = []"
    by (simp add: ctor_defs plainViewer_def)
  from configureScene_failure [OF a, of flatScenario plainViewer] r
  show ?thesis
    by (simp add: bodyPartNode_def thirdFails_def numeral_2_eq_2)
qed

text \<open>
  Claim C1 as stated fails, composition is not atomic: with three body parts of which the third fails to
  initialise, the call returns false and leaves the first two nodes attached to a root
  that had no child.
\<close>

theorem configureScene_not_atomic:
  "fst (configureScene thirdFails [0, 1, 2] flatScenario plainViewer) = False
   \<and> rootChildren plainViewer = []
   \<and> rootChildren (snd (configureScene thirdFails [0, 1, 2] flatScenario plainViewer))
       = [110, 111]"
  by (simp add: configureScene_def bodyPartsLoop.simps thirdFails_def ctor_defs
      plainViewer_def Let_def)

subsection \<open>Construction\<close>

text \<open>
  Claim C7, as the code has it. \<open>init\<close> checks nothing: it stores every speed factor,
  and with recording on every record frequency, as they are given (with recording off
  the member \<open>recordFrequency\<close> is not assigned at all). A record frequency of zero on
  a recording viewer that starts unpaused makes the first call of \<open>frame\<close> evaluate the
  remainder by zero.
\<close>

theorem init_stores_configuration:
  "speedFactor (init now this startPaused sf r rf dir) = sf
   \<and> recording (init now this startPaused sf r rf dir) = r
   \<and> isPaused (init now this startPaused sf r rf dir) = startPaused
   \<and> (r \<longrightarrow> recordFrequency (init now this startPaused sf r rf dir) = rf)
   \<and> (\<not> r \<longrightarrow> recordFrequency (init now this startPaused sf r rf dir) = recordFrequency this)
   \<and> (r \<and> rf = 0 \<and> \<not> startPaused \<longrightarrow>
        frame M env (init now this startPaused sf r rf dir) simulatedTime numTimeSteps = None)"
  by (simp add: init_def Let_def frame_unfold clockUpdate_fields)

theorem init_stores_configuration_witness:
  "speedFactor (init 0 rawViewer False (- 1) True 0 ''out'') = - 1
   \<and> recordFrequency (init 0 rawViewer False (- 1) True 0 ''out'') = 0
   \<and> recordFrequency (init 0 rawViewer False 1 False 0 []) = 13
   \<and> frame (1 / 20) envSoon (init 0 rawViewer False (- 1) True 0 ''out'') 0 0 = None"
  using init_stores_configuration [of 0 rawViewer False "- 1" True 0 "''out''" "1 / 20" envSoon 0 0]
    init_stores_configuration [of 0 rawViewer False 1 False 0 "[]" "1 / 20" envSoon 0 0]
  by (simp add: rawViewer_def)

text \<open>
  Claim C7 as stated fails: a viewer is constructed with speed factor -1 and record
  frequency 0, and a call of
  \<open>frame\<close> on it (paused) returns normally.
\<close>

theorem init_accepts_invalid_configuration:
  "speedFactor invalidViewer = - 1 \<and> recording invalidViewer
   \<and> recordFrequency invalidViewer = 0
   \<and> map_option fst (frame (1 / 20) envPaused invalidViewer 0 0) = Some False"
  by (simp add: frame_eval ctor_defs invalidViewer_def envPaused_def)

subsection \<open>The starvation bound\<close>

lemma afterFirstCall_eq:
  "afterFirstCall =
     \<lparr>framesRendered = 1, writtenFiles = [],
      postDrawCallback = Some \<lparr>filename = ''out/0000.jpg'', snapImageOnNextFrame = True\<rparr>,
      sceneData = False, realized = False, cameraManipulator = False,
      allowEventFocus = True, paused = False, rootChildren = [],
      speedFactor = 1, tick1 = 10001, tick2 = 10000, elapsedWallTime = 1 / 100,
      timeSinceLastFrame = 0, recording = True, frameCount = 1,
      recordFrequency = 2, recordDirectoryName = ''out''\<rparr>"
  by (simp add: afterFirstCall_def frame_eval ctor_defs recordingViewer_def envSoon_def
      format04_eval)

text \<open>
  Claim C6, as the code has it. At the decision the time since the last frame is the
  value the previous call left plus, when the viewer is not paused, the number of whole
  milliseconds (the rest is cut off) between the clock reading held in \<open>tick1\<close> and
  the reading of this call at line 213, in seconds; \<open>tick1\<close> is set by the constructor
  at line 106 and by every call at line 222. The bound does not limit this
  sum, and a call less than a millisecond after that reading adds nothing. In every
  call in which the sum has reached the bound a frame is drawn, and after every call
  the time since the last frame is zero or below the bound.
\<close>

theorem starvation_forces_draw:
  assumes "recording this \<longrightarrow> recordFrequency this \<noteq> 0"
  shows "\<exists>ret this'. frame M env this simulatedTime numTimeSteps = Some (ret, this')
     \<and> (M \<le> timeSinceLastFrame (clockUpdate env this) \<longrightarrow>
          framesRendered this' = Suc (framesRendered this))
     \<and> (timeSinceLastFrame this' = 0 \<or> timeSinceLastFrame this' < M)
     \<and> timeSinceLastFrame (clockUpdate env this) =
         timeSinceLastFrame this +
           (if isPaused this then 0
            else real_of_int (total_milliseconds (clock2 env - tick1 this)) / 1000)
     \<and> tick1 this' = clock1 env"
proof -
  have t: "timeSinceLastFrame (clockUpdate env this) =
         timeSinceLastFrame this +
           (if isPaused this then 0
            else real_of_int (total_milliseconds (clock2 env - tick1 this)) / 1000)"
    by (simp add: clockUpdate_def isPaused_def Let_def)
  have k: "tick1 (clockUpdate env this) = clock1 env"
    "\<And>s. tick1 (osgViewer_frame env s) = tick1 s"
    "\<And>s. tick1 (Viewer_record s) = tick1 s"
    by (simp_all add: clockUpdate_def osgViewer_frame_def Viewer_record_def Let_def
        split: option.splits prod.splits)
  have "\<exists>ret this'. frame M env this simulatedTime numTimeSteps = Some (ret, this')
     \<and> (M \<le> timeSinceLastFrame (clockUpdate env this) \<longrightarrow>
          framesRendered this' = Suc (framesRendered this))
     \<and> (timeSinceLastFrame this' = 0 \<or> timeSinceLastFrame this' < M)
     \<and> tick1 this' = clock1 env"
    using assms
    by (auto simp add: frame_unfold viewer_fields k Let_def split: option.splits bool.splits)
  with t show ?thesis by blast
qed

theorem starvation_forces_draw_witness:
  "(\<exists>ret this'. frame (1 / 20) envLate afterFirstCall 0 1 = Some (ret, this')
      \<and> framesRendered this' = 2 \<and> timeSinceLastFrame this' < 1 / 20
      \<and> tick1 this' = 2000001)
   \<and> timeSinceLastFrame (clockUpdate envLate afterFirstCall) = 1989 / 1000
   \<and> timeSinceLastFrame (clockUpdate envSubMillisecond afterFirstCall) = 0"
proof -
  have pre: "recording afterFirstCall \<longrightarrow> recordFrequency afterFirstCall \<noteq> 0"
    and fr: "framesRendered afterFirstCall = 1" "timeSinceLastFrame afterFirstCall = 0"
      "\<not> isPaused afterFirstCall" "tick1 afterFirstCall = 10001"
    by (simp_all add: afterFirstCall_eq isPaused_def)
  have t: "total_milliseconds (clock2 envLate - 10001) = 1989"
    "total_milliseconds (clock2 envSubMillisecond - 10001) = 0"
    "clock1 envLate = 2000001"
    by (simp_all add: total_milliseconds_def envLate_def envSubMillisecond_def)
  from starvation_forces_draw [OF pre, of "1 / 20" envLate 0 1]
    starvation_forces_draw [OF pre, of "1 / 20" envSubMillisecond 0 1]
  show ?thesis by (auto simp add: fr t)
qed

text \<open>
  Claim C6 as stated fails, the bound is exceeded at the decision: the recording
  viewer draws in a first call, 10 ms after its construction, and stores the clock
  reading 10001 microseconds; the next call reads the clock at 2 s, unpaused and not
  throttled, and finds 1.989 s (1989 whole milliseconds) since the last frame against
  a bound of 0.05 s.
\<close>

theorem starvation_bound_exceeded:
  "frame (1 / 20) envSoon recordingViewer 0 0 = Some (True, afterFirstCall)
   \<and> framesRendered afterFirstCall = 1
   \<and> \<not> isPaused afterFirstCall
   \<and> \<not> 0 > elapsedWallTime (clockUpdate envLate afterFirstCall) * speedFactor afterFirstCall
   \<and> timeSinceLastFrame (clockUpdate envLate afterFirstCall) = 1989 / 1000
   \<and> \<not> timeSinceLastFrame (clockUpdate envLate afterFirstCall) \<le> 1 / 20"
proof -
  have f: "frame (1 / 20) envSoon recordingViewer 0 0 = Some (True, afterFirstCall)"
    unfolding afterFirstCall_eq
    by (simp add: frame_eval ctor_defs recordingViewer_def envSoon_def envLate_def
        format04_eval)
  have c: "clockUpdate envLate afterFirstCall =
     afterFirstCall\<lparr>tick2 := 2000000, tick1 := 2000001, elapsedWallTime := 1999 / 1000,
        timeSinceLastFrame := 1989 / 1000\<rparr>"
    unfolding afterFirstCall_eq
    by (simp add: clockUpdate_def isPaused_def total_milliseconds_def envLate_def Let_def)
  show ?thesis
    unfolding c using f by (simp add: afterFirstCall_eq isPaused_def)
qed

subsection \<open>The capture file names\<close>

lemma digitValue_digit: "d < 10 \<Longrightarrow> digitValue (digit d) = d"
proof -
  assume "d < 10"
  then have "d \<in> {0, 1, 2, 3, 4, 5, 6, 7, 8, 9}" by auto
  then show ?thesis
    by (auto simp add: digitValue_def digit_def eval_nat_numeral)
qed

lemma readDecimal_snoc: "readDecimal (s @ [c]) = 10 * readDecimal s + digitValue c"
  by (simp add: readDecimal_def)

lemma readDecimal_decimal: "readDecimal (decimal n) = n"
proof (induction n rule: decimal.induct)
  case (1 n)
  show ?case
  proof (cases "n < 10")
    case True
    then show ?thesis
      by (simp add: decimal.simps [of n] readDecimal_def digitValue_digit)
  next
    case False
    with "1.IH" have "readDecimal (decimal (n div 10)) = n div 10" by simp
    with False show ?thesis
      by (simp add: decimal.simps [of n] readDecimal_snoc digitValue_digit)
  qed
qed

lemma readDecimal_zeros: "readDecimal (replicate k (CHR ''0'') @ s) = readDecimal s"
  by (induction k) (simp_all add: readDecimal_def digitValue_def)

lemma readDecimal_format04: "readDecimal (format04 n) = n"
  by (simp add: format04_def readDecimal_zeros readDecimal_decimal)

lemma length_decimal_pos: "0 < length (decimal n)"
  by (subst decimal.simps) simp

lemma length_decimal_le: "n < 10 ^ k \<Longrightarrow> 0 < k \<Longrightarrow> length (decimal n) \<le> k"
proof (induction n arbitrary: k rule: decimal.induct)
  case (1 n)
  show ?case
  proof (cases "n < 10")
    case True
    with "1.prems" show ?thesis by (simp add: decimal.simps [of n])
  next
    case False
    with "1.prems" obtain k' where k: "k = Suc k'" by (cases k) auto
    with False "1.prems" have "0 < k'" by (cases k') auto
    moreover from "1.prems" k have "n div 10 < 10 ^ k'"
      by (simp add: less_mult_imp_div_less mult.commute)
    ultimately have "length (decimal (n div 10)) \<le> k'"
      using "1.IH" False by simp
    with False k show ?thesis by (simp add: decimal.simps [of n])
  qed
qed

lemma length_format04: "4 \<le> length (format04 n)"
  by (simp add: format04_def)

lemma length_format04_small: "n < 10000 \<Longrightarrow> length (format04 n) = 4"
  using length_decimal_le [of n 4] by (simp add: format04_def)

lemma captureName_inj: "captureName dir i = captureName dir j \<Longrightarrow> i = j"
proof -
  assume "captureName dir i = captureName dir j"
  then have "format04 i = format04 j" by (simp add: captureName_def)
  then have "readDecimal (format04 i) = readDecimal (format04 j)" by simp
  then show ?thesis by (simp add: readDecimal_format04)
qed


lemma osgViewer_frame_pending: "pendingCapture (osgViewer_frame env this) = []"
  by (auto simp add: pendingCapture_def osgViewer_frame_def SnapImageDrawCallback_call_def Let_def
      split: option.splits)

lemma osgViewer_frame_written:
  "writtenFiles (osgViewer_frame env this) =
     (if writeOk env then writtenFiles this @ pendingCapture this else writtenFiles this)"
  by (simp add: pendingCapture_def osgViewer_frame_def SnapImageDrawCallback_call_def Let_def
      split: option.splits)

lemma osgViewer_frame_callback:
  "(postDrawCallback (osgViewer_frame env this) = None) = (postDrawCallback this = None)"
  by (simp add: osgViewer_frame_def SnapImageDrawCallback_call_def Let_def
      split: option.splits)

lemma Viewer_record_armed:
  "postDrawCallback this \<noteq> None \<Longrightarrow>
     frameCount (Viewer_record this) = frameCount this + 1
     \<and> pendingCapture (Viewer_record this) =
         [captureName (recordDirectoryName this) (frameCount this)]
     \<and> postDrawCallback (Viewer_record this) \<noteq> None"
  by (auto simp add: Viewer_record_def pendingCapture_def captureName_def)

lemma frame_writeOk_irrelevant:
  "map_option fst (frame M (env\<lparr>writeOk := b\<rparr>) this simulatedTime numTimeSteps) =
   map_option fst (frame M env this simulatedTime numTimeSteps)"
proof -
  have c: "clockUpdate (env\<lparr>writeOk := b\<rparr>) this = clockUpdate env this"
    by (simp add: clockUpdate_def)
  have o: "\<And>s. pausedAfterDraw (env\<lparr>writeOk := b\<rparr>) = pausedAfterDraw env" by simp
  show ?thesis
    unfolding frame_def c
    by (auto simp add: shouldDraw_def captureDue_def recordAndReturn_def isPaused_def
        viewer_fields Let_def split: option.splits bool.splits)
qed

text \<open>
  Claim C8. A capture, that is a call of \<open>Viewer_record\<close> on a viewer whose callback is
  installed, followed by a drawn frame whose write succeeds, writes exactly one file:
  its name is the record directory, a slash, the frame count before the capture in
  decimal digits filled with zeros to four characters, and \<open>.jpg\<close>. A further drawn
  frame writes nothing more, the capture raises the frame count by one, and a
  recording viewer starts with frame count 0, whose file is \<open>0000.jpg\<close>. The digits
  read back as the frame count; they are four for a count below 10000 and never fewer.
\<close>

theorem capture_file_name:
  assumes "postDrawCallback this \<noteq> None" and "writeOk env"
  shows "writtenFiles (osgViewer_frame env (Viewer_record this)) =
           writtenFiles this @
             [recordDirectoryName this @ ''/'' @ format04 (frameCount this) @ ''.jpg'']
     \<and> writtenFiles (osgViewer_frame env' (osgViewer_frame env (Viewer_record this))) =
         writtenFiles (osgViewer_frame env (Viewer_record this))
     \<and> frameCount (Viewer_record this) = frameCount this + 1
     \<and> readDecimal (format04 (frameCount this)) = frameCount this
     \<and> 4 \<le> length (format04 (frameCount this))
     \<and> (frameCount this < 10000 \<longrightarrow> length (format04 (frameCount this)) = 4)
     \<and> frameCount (init now this0 startPaused sf True rf dir) = 0
     \<and> recordDirectoryName (init now this0 startPaused sf True rf dir) = dir
     \<and> postDrawCallback (init now this0 startPaused sf True rf dir) \<noteq> None
     \<and> format04 0 = ''0000''"
proof -
  have z: "format04 0 = ''0000''"
    by (simp add: format04_eval)
  show ?thesis
    using Viewer_record_armed [OF assms(1)] assms(2)
    by (simp add: osgViewer_frame_written osgViewer_frame_pending Viewer_record_fields
        captureName_def readDecimal_format04 length_format04 length_format04_small z init_def)
qed

theorem capture_file_name_witness:
  "writtenFiles (osgViewer_frame envLate (Viewer_record recordingViewer)) = [''out/0000.jpg'']
   \<and> writtenFiles (osgViewer_frame envSoon (osgViewer_frame envLate (Viewer_record recordingViewer)))
       = [''out/0000.jpg'']
   \<and> writtenFiles (osgViewer_frame envLate (Viewer_record (recordingViewer\<lparr>frameCount := 12\<rparr>)))
       = [''out/0012.jpg'']"
proof -
  have a: "postDrawCallback recordingViewer \<noteq> None"
    "postDrawCallback (recordingViewer\<lparr>frameCount := 12\<rparr>) \<noteq> None"
    by (simp_all add: ctor_defs recordingViewer_def envSoon_def envLate_def)
  have v: "frameCount recordingViewer = 0"
    "writtenFiles recordingViewer = []" "recordDirectoryName recordingViewer = ''out''"
    by (simp_all add: ctor_defs recordingViewer_def envSoon_def envLate_def)
  have b: "writeOk envLate"
    by (simp add: ctor_defs recordingViewer_def envSoon_def envLate_def)
  have c: "format04 0 = ''0000''" "format04 12 = ''0012''"
    by (simp_all add: format04_eval)
  note th = capture_file_name [where env' = envSoon and now = 0 and ?this0.0 = rawViewer
      and startPaused = False and sf = 1 and rf = 2 and dir = "''out''", OF _ b]
  from th [OF a(1)]
  have 1: "writtenFiles (osgViewer_frame envLate (Viewer_record recordingViewer)) =
      writtenFiles recordingViewer @
        [recordDirectoryName recordingViewer @ ''/'' @ format04 (frameCount recordingViewer) @ ''.jpg'']"
    and 2: "writtenFiles (osgViewer_frame envSoon (osgViewer_frame envLate (Viewer_record recordingViewer)))
       = writtenFiles (osgViewer_frame envLate (Viewer_record recordingViewer))"
    by blast+
  from th [OF a(2)]
  have 3: "writtenFiles (osgViewer_frame envLate (Viewer_record (recordingViewer\<lparr>frameCount := 12\<rparr>))) =
      writtenFiles (recordingViewer\<lparr>frameCount := 12\<rparr>) @
        [recordDirectoryName (recordingViewer\<lparr>frameCount := 12\<rparr>) @ ''/'' @
         format04 (frameCount (recordingViewer\<lparr>frameCount := 12\<rparr>)) @ ''.jpg'']"
    by blast
  show ?thesis
    unfolding 2 unfolding 1 3 by (simp add: v c)
qed

subsection \<open>The frame counter\<close>

text \<open>
  Claim C5, as the code has it. The frame count is raised by exactly one in
  \<open>Viewer_record\<close>, when the capture is armed, before the image is written; drawing a
  frame, with the write succeeding or failing, leaves it as it is. After a drawn frame
  the callback is disarmed in both cases, a file is written only when the write
  succeeds, and the value \<open>frame\<close> returns does not depend on the write.
\<close>

theorem frameCount_independent_of_write:
  "frameCount (osgViewer_frame env this) = frameCount this
   \<and> (postDrawCallback this \<noteq> None \<longrightarrow>
        frameCount (Viewer_record this) = frameCount this + 1)
   \<and> pendingCapture (osgViewer_frame env this) = []
   \<and> writtenFiles (osgViewer_frame env this) =
        (if writeOk env then writtenFiles this @ pendingCapture this else writtenFiles this)
   \<and> map_option fst (frame M (env\<lparr>writeOk := False\<rparr>) this simulatedTime numTimeSteps) =
       map_option fst (frame M env this simulatedTime numTimeSteps)"
  using Viewer_record_armed [of this]
  by (simp add: osgViewer_frame_fields osgViewer_frame_pending osgViewer_frame_written
      frame_writeOk_irrelevant)

theorem frameCount_independent_of_write_witness:
  "frameCount (Viewer_record recordingViewer) = 1
   \<and> frameCount (osgViewer_frame envLateWriteFails (Viewer_record recordingViewer)) = 1
   \<and> writtenFiles (osgViewer_frame envLateWriteFails (Viewer_record recordingViewer)) = []
   \<and> writtenFiles (osgViewer_frame envLate (Viewer_record recordingViewer)) = [''out/0000.jpg'']"
proof -
  have a: "postDrawCallback recordingViewer \<noteq> None" "frameCount recordingViewer = 0"
    "writtenFiles recordingViewer = []" "recordDirectoryName recordingViewer = ''out''"
    by (simp_all add: ctor_defs recordingViewer_def envLateWriteFails_def envLate_def)
  have b: "\<not> writeOk envLateWriteFails" "writeOk envLate"
    by (simp_all add: ctor_defs recordingViewer_def envLateWriteFails_def envLate_def)
  have c: "captureName ''out'' 0 = ''out/0000.jpg''"
    by (simp add: captureName_def format04_eval)
  note th = frameCount_independent_of_write [where M = "1 / 20" and simulatedTime = 0
      and numTimeSteps = 0]
  from th [of envLateWriteFails "Viewer_record recordingViewer"]
    th [of envLate "Viewer_record recordingViewer"]
    th [of envLate recordingViewer]
    Viewer_record_armed [OF a(1)]
  show ?thesis
    by (simp add: a b c Viewer_record_fields)
qed

text \<open>
  Claim C5 as stated fails, the frame count stays raised after a failed write: the
  first call arms the capture of
  \<open>out/0000.jpg\<close> and raises the count from 0 to 1; in the next call the write fails,
  no file exists, the callback is disarmed, and the count is still 1.
\<close>

theorem frameCount_counts_failed_write:
  "frameCount recordingViewer = 0
   \<and> frame (1 / 20) envSoon recordingViewer 0 0 = Some (True, afterFirstCall)
   \<and> frameCount afterFirstCall = 1
   \<and> pendingCapture afterFirstCall = [''out/0000.jpg'']
   \<and> \<not> writeOk envLateWriteFails
   \<and> map_option (frameCount \<circ> snd) (frame (1 / 20) envLateWriteFails afterFirstCall 0 1) = Some 1
   \<and> map_option (writtenFiles \<circ> snd) (frame (1 / 20) envLateWriteFails afterFirstCall 0 1) = Some []
   \<and> map_option (pendingCapture \<circ> snd) (frame (1 / 20) envLateWriteFails afterFirstCall 0 1) = Some []"
proof -
  have f: "frame (1 / 20) envSoon recordingViewer 0 0 = Some (True, afterFirstCall)"
    unfolding afterFirstCall_eq
    by (simp add: frame_eval ctor_defs recordingViewer_def envSoon_def envLateWriteFails_def
        format04_eval)
  have g: "frame (1 / 20) envLateWriteFails afterFirstCall 0 1 =
     Some (True, afterFirstCall\<lparr>framesRendered := 2, tick2 := 2000000, tick1 := 2000001,
        elapsedWallTime := 1999 / 1000,
        postDrawCallback := Some \<lparr>filename = ''out/0000.jpg'', snapImageOnNextFrame = False\<rparr>\<rparr>)"
    unfolding afterFirstCall_eq
    by (simp add: frame_eval envLateWriteFails_def)
  show ?thesis
    unfolding g using f
    by (simp add: afterFirstCall_eq pendingCapture_def ctor_defs recordingViewer_def
        envSoon_def envLateWriteFails_def)
qed


subsection \<open>The recording cadence\<close>

lemma clockUpdate_pending: "pendingCapture (clockUpdate env this) = pendingCapture this"
  by (simp add: pendingCapture_def clockUpdate_fields)

lemma pending_timeSince:
  "pendingCapture (this\<lparr>timeSinceLastFrame := x\<rparr>) = pendingCapture this"
  by (simp add: pendingCapture_def)

lemma Viewer_record_timeSince:
  "Viewer_record (this\<lparr>timeSinceLastFrame := x\<rparr>) = (Viewer_record this)\<lparr>timeSinceLastFrame := x\<rparr>"
  by (simp add: Viewer_record_def split: option.splits)

lemma captureInv_clockUpdate: "captureInv k dir (clockUpdate env this) = captureInv k dir this"
  by (simp add: captureInv_def clockUpdate_fields clockUpdate_pending)

lemma captureInv_timeSince:
  "captureInv k dir (this\<lparr>timeSinceLastFrame := x\<rparr>) = captureInv k dir this"
  by (simp add: captureInv_def pending_timeSince)

lemma captureInv_draw:
  assumes "captureInv k dir this" and "writeOk env"
  shows "captureInv k dir (osgViewer_frame env this)"
    and "pendingCapture (osgViewer_frame env this) = []"
  using assms
  by (simp_all add: captureInv_def osgViewer_frame_fields osgViewer_frame_pending
      osgViewer_frame_written osgViewer_frame_callback)

lemma captureInv_record:
  assumes "captureInv k dir this" and "pendingCapture this = []"
  shows "captureInv k dir (Viewer_record this)"
    and "frameCount (Viewer_record this) = Suc (frameCount this)"
proof -
  from assms(1) have cb: "postDrawCallback this \<noteq> None"
    and d: "recordDirectoryName this = dir"
    and w: "writtenFiles this @ pendingCapture this = map (captureName dir) [0..<frameCount this]"
    by (simp_all add: captureInv_def)
  note r = Viewer_record_armed [OF cb]
  from r show "frameCount (Viewer_record this) = Suc (frameCount this)" by simp
  from assms r w d show "captureInv k dir (Viewer_record this)"
    by (simp add: captureInv_def Viewer_record_fields)
qed

lemma frame_capture_step:
  assumes inv: "captureInv k dir this" and ok: "writeOk env"
  shows "\<exists>ret this'. frame M env this simulatedTime numTimeSteps = Some (ret, this')
     \<and> captureInv k dir this'
     \<and> frameCount this' =
         (if ret \<and> numTimeSteps mod k = 0 then Suc (frameCount this) else frameCount this)"
proof -
  let ?s1 = "clockUpdate env this"
  let ?s2 = "(osgViewer_frame env ?s1)\<lparr>timeSinceLastFrame := 0\<rparr>"
  from inv have rec: "recording this" and k: "recordFrequency this = k" "k \<noteq> 0"
    by (simp_all add: captureInv_def)
  have i1: "captureInv k dir ?s1"
    using inv by (simp add: captureInv_clockUpdate)
  have i2: "captureInv k dir ?s2" and p2: "pendingCapture ?s2 = []"
    using captureInv_draw [OF i1 ok] by (simp_all add: captureInv_timeSince pending_timeSince)
  have f2: "frameCount ?s2 = frameCount this" and f1: "frameCount ?s1 = frameCount this"
    by (simp_all add: viewer_fields)
  note r = captureInv_record [OF i2 p2]
  have due1: "captureDue ?s1 numTimeSteps = Some (numTimeSteps mod k = 0)"
    and due2: "captureDue ?s2 numTimeSteps = Some (numTimeSteps mod k = 0)"
    using rec k by (simp_all add: captureDue_def viewer_fields)
  show ?thesis
  proof (cases "numTimeSteps mod k = 0")
    case True
    then have sd: "shouldDraw M ?s1 simulatedTime numTimeSteps = Some True"
      using due1 by (simp add: shouldDraw_def)
    show ?thesis
      using True sd due2 i2 r f2
      by (auto simp add: frame_def recordAndReturn_def Let_def)
  next
    case False
    show ?thesis
    proof (cases "shouldDraw M ?s1 simulatedTime numTimeSteps")
      case None
      then show ?thesis using due1 by (simp add: shouldDraw_def split: if_splits bool.splits)
    next
      case (Some d)
      show ?thesis
        using False Some due1 due2 i1 i2 f1 f2
        by (cases d) (auto simp add: frame_def recordAndReturn_def Let_def)
    qed
  qed
qed

lemma frame_dispatch:
  assumes rec: "recording this" and k: "recordFrequency this = k" "k \<noteq> 0"
    and cb: "postDrawCallback this \<noteq> None"
  shows "\<exists>ret this'. frame M env this simulatedTime numTimeSteps = Some (ret, this')
     \<and> frameCount this' =
         (if ret \<and> numTimeSteps mod k = 0 then Suc (frameCount this) else frameCount this)
     \<and> (ret \<and> numTimeSteps mod k = 0 \<longrightarrow>
          pendingCapture this' = [captureName (recordDirectoryName this) (frameCount this)])"
proof -
  let ?s1 = "clockUpdate env this"
  let ?s2 = "(osgViewer_frame env ?s1)\<lparr>timeSinceLastFrame := 0\<rparr>"
  have cb2: "postDrawCallback ?s2 \<noteq> None"
    using cb by (simp add: osgViewer_frame_callback clockUpdate_fields)
  have f2: "frameCount ?s2 = frameCount this" and f1: "frameCount ?s1 = frameCount this"
    and d2: "recordDirectoryName ?s2 = recordDirectoryName this"
    by (simp_all add: viewer_fields)
  note r = Viewer_record_armed [OF cb2, unfolded f2 d2]
  have due1: "captureDue ?s1 numTimeSteps = Some (numTimeSteps mod k = 0)"
    and due2: "captureDue ?s2 numTimeSteps = Some (numTimeSteps mod k = 0)"
    using rec k by (simp_all add: captureDue_def viewer_fields)
  show ?thesis
  proof (cases "numTimeSteps mod k = 0")
    case True
    then have sd: "shouldDraw M ?s1 simulatedTime numTimeSteps = Some True"
      using due1 by (simp add: shouldDraw_def)
    show ?thesis
      using True sd due2 r f2
      by (auto simp add: frame_def recordAndReturn_def Let_def)
  next
    case False
    show ?thesis
    proof (cases "shouldDraw M ?s1 simulatedTime numTimeSteps")
      case None
      then show ?thesis using due1 by (simp add: shouldDraw_def split: if_splits bool.splits)
    next
      case (Some d)
      show ?thesis
        using False Some due1 due2 f1 f2
        by (cases d) (auto simp add: frame_def recordAndReturn_def Let_def)
    qed
  qed
qed

lemma run_capture:
  assumes "captureInv k dir this" and "\<forall>c \<in> set calls. writeOk (fst c)"
  shows "\<exists>rets this'. run M this calls = Some (rets, this')
     \<and> length rets = length calls
     \<and> captureInv k dir this'
     \<and> frameCount this' = frameCount this + length (filter (dispatched k) (zip calls rets))"
  using assms
proof (induction calls arbitrary: this)
  case Nil
  then show ?case by simp
next
  case (Cons c calls)
  obtain env simulatedTime numTimeSteps where c: "c = (env, simulatedTime, numTimeSteps)"
    by (cases c) auto
  from Cons.prems(2) c have ok: "writeOk env" by simp
  from frame_capture_step [OF Cons.prems(1) ok, of M simulatedTime numTimeSteps]
  obtain ret this1 where f: "frame M env this simulatedTime numTimeSteps = Some (ret, this1)"
    and i1: "captureInv k dir this1"
    and c1: "frameCount this1 =
         (if ret \<and> numTimeSteps mod k = 0 then Suc (frameCount this) else frameCount this)"
    by blast
  from Cons.prems(2) have "\<forall>c \<in> set calls. writeOk (fst c)" by simp
  from Cons.IH [OF i1 this]
  obtain rets this' where r: "run M this1 calls = Some (rets, this')"
    and l: "length rets = length calls"
    and i': "captureInv k dir this'"
    and c': "frameCount this' = frameCount this1 + length (filter (dispatched k) (zip calls rets))"
    by blast
  have "run M this (c # calls) = Some (ret # rets, this')"
    using f r c by simp
  moreover have "frameCount this' =
      frameCount this + length (filter (dispatched k) (zip (c # calls) (ret # rets)))"
    using c1 c' c by (simp add: dispatched_def)
  ultimately show ?case using l i' by simp
qed

lemma captureInv_init:
  "k \<noteq> 0 \<Longrightarrow> captureInv k dir (init now this0 startPaused sf True k dir)"
  by (simp add: captureInv_def init_def pendingCapture_def)

text \<open>
  Claim C4, as the code has it. On a recording viewer with record frequency \<open>k\<close>, not
  zero, a call of \<open>frame\<close> dispatches a capture if and only if the step counter is a
  multiple of \<open>k\<close> and the call returns true: a call that returns false, paused or
  throttled after its draw, leaves before the cadence test of line 251. A dispatch
  raises the frame count by one and arms the callback with the file of the old count.
  After any calls from the construction on, with every write succeeding, the frame
  count is the number of the calls that dispatched, and the files written, followed by
  the file still armed if there is one, are \<open>0000.jpg\<close>, \<open>0001.jpg\<close> and so on in
  order, in the record directory.
\<close>

theorem capture_cadence:
  assumes "k \<noteq> 0" and "\<forall>c \<in> set calls. writeOk (fst c)"
  shows "\<exists>rets this. run M (init now this0 startPaused sf True k dir) calls = Some (rets, this)
     \<and> length rets = length calls
     \<and> frameCount this = length (filter (dispatched k) (zip calls rets))
     \<and> writtenFiles this @ pendingCapture this = map (captureName dir) [0..<frameCount this]
     \<and> (\<forall>env simulatedTime numTimeSteps.
          \<exists>ret this'. frame M env this simulatedTime numTimeSteps = Some (ret, this')
            \<and> frameCount this' =
                (if ret \<and> numTimeSteps mod k = 0 then Suc (frameCount this)
                 else frameCount this)
            \<and> (ret \<and> numTimeSteps mod k = 0 \<longrightarrow>
                 pendingCapture this' = [captureName dir (frameCount this)]))"
proof -
  have z: "frameCount (init now this0 startPaused sf True k dir) = 0"
    by (simp add: init_def)
  have i: "captureInv k dir (init now this0 startPaused sf True k dir)"
    using assms(1) by (rule captureInv_init)
  from run_capture [OF i assms(2), of M]
  obtain rets this where r:
    "run M (init now this0 startPaused sf True k dir) calls = Some (rets, this)"
    "length rets = length calls"
    "frameCount this = frameCount (init now this0 startPaused sf True k dir) +
       length (filter (dispatched k) (zip calls rets))"
    and inv: "captureInv k dir this"
    by blast
  from inv have v: "recording this" "recordFrequency this = k" "postDrawCallback this \<noteq> None"
    and d: "recordDirectoryName this = dir"
    and w: "writtenFiles this @ pendingCapture this = map (captureName dir) [0..<frameCount this]"
    by (simp_all add: captureInv_def)
  have "\<forall>env simulatedTime numTimeSteps.
          \<exists>ret this'. frame M env this simulatedTime numTimeSteps = Some (ret, this')
            \<and> frameCount this' =
                (if ret \<and> numTimeSteps mod k = 0 then Suc (frameCount this)
                 else frameCount this)
            \<and> (ret \<and> numTimeSteps mod k = 0 \<longrightarrow>
                 pendingCapture this' = [captureName dir (frameCount this)])"
    using frame_dispatch [OF v(1,2) assms(1) v(3), of M] unfolding d by blast
  with r w show ?thesis
    unfolding z by auto
qed

theorem capture_cadence_witness:
  "map_option fst (run (1 / 20) recordingViewer fourCalls) = Some [True, True, True, True]
   \<and> map_option (frameCount \<circ> snd) (run (1 / 20) recordingViewer fourCalls) = Some 2
   \<and> map_option (writtenFiles \<circ> snd) (run (1 / 20) recordingViewer fourCalls)
       = Some [''out/0000.jpg'', ''out/0001.jpg'']
   \<and> map_option (pendingCapture \<circ> snd) (frame (1 / 20) envLate afterFourCalls 0 4)
       = Some [''out/0002.jpg'']"
proof -
  have e5: "map_option fst (frame (1 / 20) envLate afterFourCalls 0 4) = Some True"
    by (simp add: afterFourCalls_def fourCalls_def frame_eval ctor_defs recordingViewer_def
        envLate_def envSoon_def format04_eval)
  have n2: "captureName ''out'' 2 = ''out/0002.jpg''"
    by (simp add: captureName_def format04_eval)
  have e: "map_option fst (run (1 / 20) recordingViewer fourCalls) = Some [True, True, True, True]"
    and p: "map_option (pendingCapture \<circ> snd) (run (1 / 20) recordingViewer fourCalls) = Some []"
    by (simp_all add: fourCalls_def frame_eval ctor_defs recordingViewer_def envLate_def
        envSoon_def format04_eval pendingCapture_def)
  have ok: "\<forall>c \<in> set fourCalls. writeOk (fst c)"
    by (simp add: fourCalls_def ctor_defs recordingViewer_def envLate_def envSoon_def)
  have k: "(2 :: uint) \<noteq> 0" by simp
  have u: "[0..<2] = [0, 1 :: nat]"
    by (simp add: upt_rec [of 0] upt_rec [of "Suc 0"])
  have n: "map (captureName ''out'') [0..<2] = [''out/0000.jpg'', ''out/0001.jpg'']"
    unfolding u by (simp add: captureName_def format04_eval)
  from capture_cadence [OF k ok, of "1 / 20" 0 rawViewer False 1 "''out''"]
  obtain rets this where r: "run (1 / 20) recordingViewer fourCalls = Some (rets, this)"
    and c: "frameCount this = length (filter (dispatched 2) (zip fourCalls rets))"
    and w: "writtenFiles this @ pendingCapture this = map (captureName ''out'') [0..<frameCount this]"
    and d: "\<exists>ret this'. frame (1 / 20) envLate this 0 4 = Some (ret, this')
            \<and> (ret \<and> (4 :: uint) mod 2 = 0 \<longrightarrow>
                 pendingCapture this' = [captureName ''out'' (frameCount this)])"
    unfolding recordingViewer_def Viewer5_def by blast
  from r have a: "afterFourCalls = this"
    by (simp add: afterFourCalls_def)
  from e r have rets: "rets = [True, True, True, True]" by simp
  from c have c2: "frameCount this = 2"
    unfolding rets by (simp add: fourCalls_def dispatched_def)
  from p r have "pendingCapture this = []" by simp
  with w c2 n have f: "writtenFiles this = [''out/0000.jpg'', ''out/0001.jpg'']" by simp
  from d e5 have "map_option (pendingCapture \<circ> snd) (frame (1 / 20) envLate afterFourCalls 0 4)
       = Some [''out/0002.jpg'']"
    unfolding a c2 n2 by auto
  with e r c2 f show ?thesis by simp
qed

text \<open>
  Claim C4 as stated fails, no capture at a multiple of the record frequency: the
  viewer is paused, the step
  counter 0 is a multiple of 2, and the call returns false with the frame count still 0
  and the callback not armed.
\<close>

theorem capture_not_dispatched_when_paused:
  "recording pausedViewer \<and> recordFrequency pausedViewer = 2 \<and> (0 :: uint) mod 2 = 0
   \<and> frameCount pausedViewer = 0 \<and> pendingCapture pausedViewer = []
   \<and> map_option fst (frame (1 / 20) envPaused pausedViewer 0 0) = Some False
   \<and> map_option (frameCount \<circ> snd) (frame (1 / 20) envPaused pausedViewer 0 0) = Some 0
   \<and> map_option (pendingCapture \<circ> snd) (frame (1 / 20) envPaused pausedViewer 0 0) = Some []"
  by (simp add: frame_eval ctor_defs pausedViewer_def envPaused_def pendingCapture_def)

end
